theory Spec2Isabelle
  imports Complex_Main "HOL-Library.Char_ord" "HOL-Library.List_Lexorder" "HOL-Library.Multiset"
begin

section \<open>Data model\<close>

text \<open>
  The program is one script, \<^verbatim>\<open>app_irap.py\<close>. It reads a table, turns every row into a
  road segment (a geometry with a road number, a speed limit and a KSI count), and sends
  the segments through a fixed sequence of stages before drawing them.

  Coordinates are modelled as real numbers: the value a float denotes. The geometry
  objects of Shapely are modelled by what the script reads of them: the type name and the
  sequence of vertices.
\<close>

type_synonym point = "real \<times> real"

datatype geom_kind =
  Point | LineString | LinearRing | Polygon
  | MultiPoint | MultiLineString | MultiPolygon | GeometryCollection

record geom =
  geom_type :: geom_kind
  coords :: "point list"

text \<open>Exceptions are values. The script only ever catches \<^verbatim>\<open>Exception\<close> as a whole.\<close>

datatype error = KeyError string | ValueError string | IndexError | LibraryError string

text \<open>
  A cell of the table that \<^verbatim>\<open>pd.read_csv\<close> returns: missing, an integer, a float or
  text. A row gives the cell of every column name; \<open>columns\<close> says which names exist.
\<close>

datatype cell = NaN | IntCell int | FloatCell real | StrCell string

record dataframe =
  columns :: "string list"
  rows :: "(string \<Rightarrow> cell) list"

datatype crs = EPSG4326 | EPSG32631

record road_segment =
  geometry :: geom
  road_number :: string
  speed_limit :: int
  ksi_count :: int

text \<open>
  The \<^verbatim>\<open>GeoDataFrame\<close>: its rows in order and its coordinate reference system, which is
  unset after \<^verbatim>\<open>load_data\<close>. \<^verbatim>\<open>gpd.GeoDataFrame()\<close> is the frame with no rows.
\<close>

record geo_frame =
  crs :: "crs option"
  records :: "road_segment list"

definition empty_frame :: geo_frame where
  "empty_frame = \<lparr>crs = None, records = []\<rparr>"

text \<open>
  The functions of pandas, Shapely, pyproj and SciPy that the script calls and whose
  code is not part of the repository are parameters of the model. \<open>'f\<close> is the
  uploaded file and \<open>'t\<close> the spline representation that \<^verbatim>\<open>splprep\<close> returns.
\<close>

record ('f, 't) lib =
  read_csv :: "'f \<Rightarrow> error + dataframe"
  wkt_loads :: "cell \<Rightarrow> error + geom"
  astype_str :: "cell \<Rightarrow> string"
  astype_int :: "cell \<Rightarrow> error + int"
  intersects :: "geom \<Rightarrow> geom \<Rightarrow> bool"
  transform :: "crs \<Rightarrow> crs \<Rightarrow> point \<Rightarrow> point"
  splprep :: "real list \<Rightarrow> real list \<Rightarrow> real \<Rightarrow> error + 't \<times> real list"
  splev :: "real list \<Rightarrow> 't \<Rightarrow> error + real list list"

text \<open>What the user sets in the sidebar.\<close>

record sidebar =
  all_roads :: bool
  picked_roads :: "string list"
  all_speeds :: bool
  picked_speeds :: "int list"
  filter_1_4 :: bool
  filter_5_7 :: bool
  filter_8 :: bool

text \<open>
  How a run of the script ends: \<^verbatim>\<open>st.stop()\<close> halts it, an exception that nothing
  catches aborts it, otherwise it reaches the end with a value.
\<close>

datatype 'a outcome = Stopped | Raised error | Done 'a

section \<open>Helpers for pandas and Shapely\<close>

text \<open>Boolean indexing \<^verbatim>\<open>df[mask]\<close>: the rows whose entry in the mask is true.\<close>

definition select :: "'a list \<Rightarrow> bool list \<Rightarrow> 'a list" where
  "select xs flags = map fst (filter snd (zip xs flags))"

text \<open>\<^verbatim>\<open>Series.apply(f)\<close> where \<open>f\<close> may raise: the first exception ends the whole call.\<close>

fun apply_raising :: "('a \<Rightarrow> error + 'b) \<Rightarrow> 'a list \<Rightarrow> error + 'b list" where
  "apply_raising f [] = Inr []"
| "apply_raising f (x # xs) =
     (case f x of
        Inl e \<Rightarrow> Inl e
      | Inr y \<Rightarrow> (case apply_raising f xs of Inl e \<Rightarrow> Inl e | Inr ys \<Rightarrow> Inr (y # ys)))"

definition fillna :: "cell \<Rightarrow> cell \<Rightarrow> cell" where
  "fillna v c = (if c = NaN then v else c)"

text \<open>\<^verbatim>\<open>str.strip()\<close> removes white space at both ends; here the white space of ASCII.\<close>

definition is_space :: "char \<Rightarrow> bool" where
  "is_space c = (c \<in> set [CHR '' '', CHR 0x09, CHR 0x0A, CHR 0x0B, CHR 0x0C, CHR 0x0D,
                          CHR 0x1C, CHR 0x1D, CHR 0x1E, CHR 0x1F])"

definition strip :: "string \<Rightarrow> string" where
  "strip s = rev (dropWhile is_space (rev (dropWhile is_space s)))"

text \<open>
  \<^verbatim>\<open>LineString(coordinates)\<close>: Shapely refuses a single coordinate and accepts none or two
  and more.
\<close>

definition LineString_of :: "point list \<Rightarrow> error + geom" where
  "LineString_of ps =
     (if length ps = 1 then Inl (LibraryError ''LineStrings must have at least 2 coordinate tuples'')
      else Inr \<lparr>geom_type = LineString, coords = ps\<rparr>)"

text \<open>\<^verbatim>\<open>box(minx, miny, maxx, maxy)\<close>: the rectangle as a polygon, counter-clockwise.\<close>

definition box :: "real \<Rightarrow> real \<Rightarrow> real \<Rightarrow> real \<Rightarrow> geom" where
  "box minx miny maxx maxy =
     \<lparr>geom_type = Polygon,
      coords = [(maxx, miny), (maxx, maxy), (minx, maxy), (minx, miny), (maxx, miny)]\<rparr>"

text \<open>
  \<^verbatim>\<open>geom.bounds\<close> as \<open>(minx, miny, maxx, maxy)\<close>; a geometry without vertices has the
  bounds NaN, here \<open>None\<close>.
\<close>

definition bounds :: "geom \<Rightarrow> (real \<times> real \<times> real \<times> real) option" where
  "bounds g =
     (case coords g of
        [] \<Rightarrow> None
      | (x, y) # ps \<Rightarrow>
          Some (foldl min x (map fst ps), foldl min y (map snd ps),
                foldl max x (map fst ps), foldl max y (map snd ps)))"

definition minx :: "(real \<times> real \<times> real \<times> real) option \<Rightarrow> real option" where
  "minx b = map_option (\<lambda>(x0, y0, x1, y1). x0) b"

definition miny :: "(real \<times> real \<times> real \<times> real) option \<Rightarrow> real option" where
  "miny b = map_option (\<lambda>(x0, y0, x1, y1). y0) b"

definition maxx :: "(real \<times> real \<times> real \<times> real) option \<Rightarrow> real option" where
  "maxx b = map_option (\<lambda>(x0, y0, x1, y1). x1) b"

definition maxy :: "(real \<times> real \<times> real \<times> real) option \<Rightarrow> real option" where
  "maxy b = map_option (\<lambda>(x0, y0, x1, y1). y1) b"

text \<open>
  \<^verbatim>\<open>Series.min()\<close> and \<^verbatim>\<open>Series.max()\<close> skip NaN; the result is NaN when nothing is left.
\<close>

fun series_min :: "real option list \<Rightarrow> real option" where
  "series_min [] = None"
| "series_min (None # vs) = series_min vs"
| "series_min (Some v # vs) = (case series_min vs of None \<Rightarrow> Some v | Some w \<Rightarrow> Some (min v w))"

fun series_max :: "real option list \<Rightarrow> real option" where
  "series_max [] = None"
| "series_max (None # vs) = series_max vs"
| "series_max (Some v # vs) = (case series_max vs of None \<Rightarrow> Some v | Some w \<Rightarrow> Some (max v w))"

text \<open>Comparisons with NaN are false.\<close>

definition gt :: "real option \<Rightarrow> real \<Rightarrow> bool" where
  "gt v c = (case v of None \<Rightarrow> False | Some x \<Rightarrow> x > c)"

definition lt :: "real option \<Rightarrow> real \<Rightarrow> bool" where
  "lt v c = (case v of None \<Rightarrow> False | Some x \<Rightarrow> x < c)"

text \<open>
  \<^verbatim>\<open>np.linspace(start, stop, num)\<close>: \<open>num\<close> evenly spaced values from \<open>start\<close> to
  \<open>stop\<close>, both included; a negative \<open>num\<close> raises.
\<close>

definition linspace :: "real \<Rightarrow> real \<Rightarrow> int \<Rightarrow> error + real list" where
  "linspace start stop num =
     (if num < 0 then Inl (ValueError ''Number of samples must be non-negative'')
      else Inr (map (\<lambda>i. if num = 1 then start
                          else start + real i * ((stop - start) / real_of_int (num - 1)))
                    [0..<nat num]))"

text \<open>Indexing a list, \<^verbatim>\<open>out[i]\<close> with \<open>i\<close> not negative.\<close>

definition item :: "'a list \<Rightarrow> nat \<Rightarrow> error + 'a" where
  "item xs i = (if i < length xs then Inr (xs ! i) else Inl IndexError)"

text \<open>
  \<^verbatim>\<open>set_crs(c, inplace=True)\<close> labels the frame and raises when the frame already has
  another label. \<^verbatim>\<open>to_crs(c)\<close> transforms every vertex and raises on a frame without label.
\<close>

definition set_crs :: "geo_frame \<Rightarrow> crs \<Rightarrow> error + geo_frame" where
  "set_crs gdf c =
     (case crs gdf of
        None \<Rightarrow> Inr (gdf\<lparr>crs := Some c\<rparr>)
      | Some c0 \<Rightarrow>
          if c0 = c then Inr gdf
          else Inl (ValueError ''The GeoDataFrame already has a CRS which is not equal to the passed CRS''))"

definition to_crs :: "('f, 't) lib \<Rightarrow> geo_frame \<Rightarrow> crs \<Rightarrow> error + geo_frame" where
  "to_crs L gdf c =
     (case crs gdf of
        None \<Rightarrow> Inl (ValueError ''Cannot transform naive geometries'')
      | Some c0 \<Rightarrow>
          if c0 = c then Inr gdf
          else Inr \<lparr>crs = Some c,
                    records = map (\<lambda>r. r\<lparr>geometry := (geometry r)
                                          \<lparr>coords := map (transform L c0 c) (coords (geometry r))\<rparr>\<rparr>)
                                  (records gdf)\<rparr>)"

section \<open>The script\<close>

subsection \<open>Step 1: load\<close>

text \<open>
  \<^verbatim>\<open>load_data\<close> shows a message and returns the empty frame on every failure. The model
  returns the message on the left and the frame on the right; \<open>load_data_frame\<close> is the
  frame the script goes on with.
\<close>

datatype message =
  MissingGeometryColumn
  | NoValidLineStrings
  | ErrorLoadingData error

definition column :: "dataframe \<Rightarrow> string \<Rightarrow> (string \<Rightarrow> cell) list \<Rightarrow> error + cell list" where
  "column df name rs =
     (if name \<in> set (columns df) then Inr (map (\<lambda>r. r name) rs) else Inl (KeyError name))"

definition load_data :: "('f, 't) lib \<Rightarrow> 'f \<Rightarrow> message + geo_frame" where
  "load_data L file =
     (case read_csv L file of
        Inl e \<Rightarrow> Inl (ErrorLoadingData e)
      | Inr df \<Rightarrow>
          if ''geometry'' \<notin> set (columns df) then Inl MissingGeometryColumn
          else
            (case apply_raising (wkt_loads L) (map (\<lambda>r. r ''geometry'') (rows df)) of
               Inl e \<Rightarrow> Inl (ErrorLoadingData e)
             | Inr geoms \<Rightarrow>
                 let geometry_type = map geom_type geoms;
                     kept = select (zip (rows df) geoms) (map (\<lambda>t. t = LineString) geometry_type)
                 in
                 if kept = [] then Inl NoValidLineStrings
                 else
                   (case column df ''Road Number'' (map fst kept) of
                      Inl e \<Rightarrow> Inl (ErrorLoadingData e)
                    | Inr roads0 \<Rightarrow>
                   let roads = map (\<lambda>c. strip (astype_str L (fillna (StrCell ''Unknown'') c))) roads0 in
                   (case column df ''speed_limit'' (map fst kept) of
                      Inl e \<Rightarrow> Inl (ErrorLoadingData e)
                    | Inr speeds0 \<Rightarrow>
                   (case apply_raising (\<lambda>c. astype_int L (fillna (IntCell 0) c)) speeds0 of
                      Inl e \<Rightarrow> Inl (ErrorLoadingData e)
                    | Inr speeds \<Rightarrow>
                   (case column df ''KSI Count'' (map fst kept) of
                      Inl e \<Rightarrow> Inl (ErrorLoadingData e)
                    | Inr ksis0 \<Rightarrow>
                   (case apply_raising (\<lambda>c. astype_int L (fillna (IntCell 0) c)) ksis0 of
                      Inl e \<Rightarrow> Inl (ErrorLoadingData e)
                    | Inr ksis \<Rightarrow>
                        Inr \<lparr>crs = None,
                             records =
                               map (\<lambda>(g, road, speed, ksi).
                                      \<lparr>geometry = g, road_number = road,
                                       speed_limit = speed, ksi_count = ksi\<rparr>)
                                   (zip (map snd kept) (zip roads (zip speeds ksis)))\<rparr>)))))))"

definition load_data_frame :: "('f, 't) lib \<Rightarrow> 'f \<Rightarrow> geo_frame" where
  "load_data_frame L file = (case load_data L file of Inl m \<Rightarrow> empty_frame | Inr gdf \<Rightarrow> gdf)"

subsection \<open>Step 2: coordinate reference system\<close>

definition detect_crs :: "('f, 't) lib \<Rightarrow> geo_frame \<Rightarrow> geo_frame outcome" where
  "detect_crs L gdf =
     (if records gdf \<noteq> [] then
        let bs = map (\<lambda>r. bounds (geometry r)) (records gdf);
            min_x = series_min (map minx bs); max_x = series_max (map maxx bs);
            min_y = series_min (map miny bs); max_y = series_max (map maxy bs)
        in
        if gt min_x (-180) \<and> lt max_x 180 \<and> gt min_y (-90) \<and> lt max_y 90 then
          (case set_crs gdf EPSG4326 of Inl e \<Rightarrow> Raised e | Inr g \<Rightarrow> Done g)
        else
          (case set_crs gdf EPSG32631 of
             Inl e \<Rightarrow> Raised e
           | Inr g \<Rightarrow> (case to_crs L g EPSG4326 of Inl e \<Rightarrow> Raised e | Inr g' \<Rightarrow> Done g'))
      else Stopped)"

subsection \<open>Step 3: region and zero counts\<close>

definition bbox_south :: real where "bbox_south = 51.2"
definition bbox_north :: real where "bbox_north = 52.3"
definition bbox_west :: real where "bbox_west = -0.2"
definition bbox_east :: real where "bbox_east = 1.5"

definition essex_bbox :: geom where
  "essex_bbox = box bbox_west bbox_south bbox_east bbox_north"

definition region_filter :: "('f, 't) lib \<Rightarrow> road_segment list \<Rightarrow> road_segment list" where
  "region_filter L rs = select rs (map (\<lambda>r. intersects L (geometry r) essex_bbox) rs)"

definition nonzero_filter :: "road_segment list \<Rightarrow> road_segment list" where
  "nonzero_filter rs = select rs (map (\<lambda>r. ksi_count r \<noteq> 0) rs)"

definition spatial_filter :: "('f, 't) lib \<Rightarrow> road_segment list \<Rightarrow> road_segment list" where
  "spatial_filter L rs = nonzero_filter (region_filter L rs)"

subsection \<open>Step 4: road number and speed limit\<close>

definition selected_roads :: "sidebar \<Rightarrow> road_segment list \<Rightarrow> string list" where
  "selected_roads ui rs =
     (let all_road_numbers = sort (remdups (map road_number rs))
      in if all_roads ui then all_road_numbers else picked_roads ui)"

definition selected_speed :: "sidebar \<Rightarrow> road_segment list \<Rightarrow> int list" where
  "selected_speed ui rs =
     (let speed_limits = sort (remdups (map speed_limit rs))
      in if all_speeds ui then speed_limits else picked_speeds ui)"

definition attribute_filter :: "string list \<Rightarrow> int list \<Rightarrow> road_segment list \<Rightarrow> road_segment list" where
  "attribute_filter roads speeds rs =
     select rs (map (\<lambda>r. road_number r \<in> set roads \<and> speed_limit r \<in> set speeds) rs)"

subsection \<open>Step 5: severity buckets\<close>

definition ksi_conditions :: "bool \<Rightarrow> bool \<Rightarrow> bool \<Rightarrow> road_segment list \<Rightarrow> bool list list" where
  "ksi_conditions f14 f57 f8 rs =
     (if f14 then [map (\<lambda>r. ksi_count r \<ge> 1 \<and> ksi_count r \<le> 4) rs] else [])
     @ (if f57 then [map (\<lambda>r. ksi_count r \<ge> 5 \<and> ksi_count r \<le> 7) rs] else [])
     @ (if f8 then [map (\<lambda>r. ksi_count r \<ge> 8) rs] else [])"

definition ksi_filter :: "bool \<Rightarrow> bool \<Rightarrow> bool \<Rightarrow> road_segment list \<Rightarrow> road_segment list" where
  "ksi_filter f14 f57 f8 rs =
     (if rs \<noteq> [] then
        (case ksi_conditions f14 f57 f8 rs of
           [] \<Rightarrow> rs
         | first # others \<Rightarrow>
             let combined_ksi = foldl (\<lambda>acc cond. map (\<lambda>(a, b). a \<or> b) (zip acc cond)) first others
             in select rs combined_ksi)
      else rs)"

subsection \<open>Step 6: smoothing\<close>

text \<open>
  \<open>smooth_try\<close> is the body of the \<^verbatim>\<open>try\<close> block of \<^verbatim>\<open>smooth_geometry\<close>;
  \<open>smooth_geometry\<close> adds the handler, which returns the geometry it was given.
\<close>

definition smooth_try :: "('f, 't) lib \<Rightarrow> geom \<Rightarrow> real \<Rightarrow> int \<Rightarrow> error + geom" where
  "smooth_try L g smoothing_factor num_points =
     (if geom_type g = LineString \<and> length (coords g) > 2 then
        let x = map fst (coords g); y = map snd (coords g) in
        (case splprep L x y smoothing_factor of
           Inl e \<Rightarrow> Inl e
         | Inr (tck, u) \<Rightarrow>
        (case linspace 0 1.0 num_points of
           Inl e \<Rightarrow> Inl e
         | Inr unew \<Rightarrow>
        (case splev L unew tck of
           Inl e \<Rightarrow> Inl e
         | Inr out \<Rightarrow>
        (case item out 0 of
           Inl e \<Rightarrow> Inl e
         | Inr out0 \<Rightarrow>
        (case item out 1 of
           Inl e \<Rightarrow> Inl e
         | Inr out1 \<Rightarrow> LineString_of (zip out0 out1))))))
      else Inr g)"

definition smooth_geometry :: "('f, 't) lib \<Rightarrow> geom \<Rightarrow> real \<Rightarrow> int \<Rightarrow> geom" where
  "smooth_geometry L g smoothing_factor num_points =
     (case smooth_try L g smoothing_factor num_points of Inl e \<Rightarrow> g | Inr g' \<Rightarrow> g')"

definition smooth_all :: "('f, 't) lib \<Rightarrow> road_segment list \<Rightarrow> road_segment list" where
  "smooth_all L rs =
     (if rs \<noteq> [] then map (\<lambda>r. r\<lparr>geometry := smooth_geometry L (geometry r) 0 500\<rparr>) rs
      else rs)"

subsection \<open>Step 7: colours\<close>

definition get_ksi_color :: "int \<Rightarrow> string" where
  "get_ksi_color ksi =
     (if 1 \<le> ksi \<and> ksi \<le> 4 then ''yellow''
      else if 5 \<le> ksi \<and> ksi \<le> 7 then ''orange''
      else ''red'')"

text \<open>The page: the map with one coloured line for each segment, or the warning.\<close>

datatype page = Map_of "(road_segment \<times> string) list" | NoDataWarning

definition render :: "road_segment list \<Rightarrow> page" where
  "render rs =
     (if rs \<noteq> [] then Map_of (map (\<lambda>r. (r, get_ksi_color (ksi_count r))) rs)
      else NoDataWarning)"

subsection \<open>The whole run\<close>

text \<open>The segments that reach the renderer, from the frame that step 2 produced.\<close>

definition filtered_segments ::
    "('f, 't) lib \<Rightarrow> sidebar \<Rightarrow> road_segment list \<Rightarrow> road_segment list" where
  "filtered_segments L ui rs0 =
     (let gdf = spatial_filter L rs0;
          gdf_filtered = attribute_filter (selected_roads ui gdf) (selected_speed ui gdf) gdf;
          gdf_filtered = ksi_filter (filter_1_4 ui) (filter_5_7 ui) (filter_8 ui) gdf_filtered
      in smooth_all L gdf_filtered)"

definition run :: "('f, 't) lib \<Rightarrow> sidebar \<Rightarrow> 'f option \<Rightarrow> page outcome" where
  "run L ui uploaded_file =
     (case uploaded_file of
        None \<Rightarrow> Stopped
      | Some file \<Rightarrow>
          (case detect_crs L (load_data_frame L file) of
             Stopped \<Rightarrow> Stopped
           | Raised e \<Rightarrow> Raised e
           | Done gdf \<Rightarrow> Done (render (filtered_segments L ui (records gdf)))))"

section \<open>Notions used in the statements\<close>

text \<open>
  The severity buckets as the specification words them: a count falls in an enabled
  bucket among 1 to 4, 5 to 7, and 8 and more.
\<close>

definition in_enabled_bucket :: "bool \<Rightarrow> bool \<Rightarrow> bool \<Rightarrow> int \<Rightarrow> bool" where
  "in_enabled_bucket f14 f57 f8 k =
     ((f14 \<and> 1 \<le> k \<and> k \<le> 4) \<or> (f57 \<and> 5 \<le> k \<and> k \<le> 7) \<or> (f8 \<and> 8 \<le> k))"

text \<open>
  Already geographic data: the frame has a bounding box (some geometry has a vertex), and
  every vertex lies strictly between -180 and 180 in longitude and -90 and 90 in latitude.
\<close>

definition geographic :: "geo_frame \<Rightarrow> bool" where
  "geographic gdf =
     ((\<exists>r \<in> set (records gdf). coords (geometry r) \<noteq> [])
      \<and> (\<forall>r \<in> set (records gdf). \<forall>(x, y) \<in> set (coords (geometry r)).
            - 180 < x \<and> x < 180 \<and> - 90 < y \<and> y < 90))"

text \<open>
  What SciPy documents of \<^verbatim>\<open>splev\<close>: every array it returns has the shape of the array
  of parameter values it was given.
\<close>

definition splev_keeps_shape :: "('f, 't) lib \<Rightarrow> bool" where
  "splev_keeps_shape L =
     (\<forall>us t out. splev L us t = Inr out \<longrightarrow> (\<forall>a \<in> set out. length a = length us))"

text \<open>
  The rows of a table that the loader keeps, each with its parsed geometry: those whose
  geometry is a LineString.
\<close>

definition kept_rows :: "dataframe \<Rightarrow> geom list \<Rightarrow> ((string \<Rightarrow> cell) \<times> geom) list" where
  "kept_rows df geoms = filter (\<lambda>(r, g). geom_type g = LineString) (zip (rows df) geoms)"

section \<open>Sample inputs\<close>

text \<open>
  One instance of the library parameters and a few tables and segments, on which the
  script is evaluated below. The reader parses three texts as Shapely does and refuses
  everything else; a geometry meets the region when one of its vertices lies in the
  region's bounds; the spline fit refuses three points or fewer and repeated neighbours,
  as SciPy's cubic fit does, and is evaluated as the chord from the first to the last point.
\<close>

definition sample_wkt :: "cell \<Rightarrow> error + geom" where
  "sample_wkt c =
     (case c of
        StrCell s \<Rightarrow>
          if s = ''LINESTRING (0.5 51.5, 0.6 51.6)'' then
            Inr \<lparr>geom_type = LineString, coords = [(0.5, 51.5), (0.6, 51.6)]\<rparr>
          else if s = ''LINESTRING EMPTY'' then Inr \<lparr>geom_type = LineString, coords = []\<rparr>
          else if s = ''POINT (0.5 51.5)'' then Inr \<lparr>geom_type = Point, coords = [(0.5, 51.5)]\<rparr>
          else Inl (LibraryError ''ParseException'')
      | _ \<Rightarrow> Inl (LibraryError ''Expected bytes or string''))"

definition sample_intersects :: "geom \<Rightarrow> geom \<Rightarrow> bool" where
  "sample_intersects g b =
     (case bounds b of
        None \<Rightarrow> False
      | Some (x0, y0, x1, y1) \<Rightarrow>
          list_ex (\<lambda>(x, y). x0 \<le> x \<and> x \<le> x1 \<and> y0 \<le> y \<and> y \<le> y1) (coords g))"

definition sample_splprep :: "real list \<Rightarrow> real list \<Rightarrow> real \<Rightarrow> error + point list \<times> real list" where
  "sample_splprep x y s =
     (if length x \<le> 3 then Inl (LibraryError ''m > k must hold'')
      else if remdups_adj (zip x y) \<noteq> zip x y then Inl (ValueError ''Invalid inputs'')
      else Inr (zip x y, []))"

definition sample_splev :: "real list \<Rightarrow> point list \<Rightarrow> error + real list list" where
  "sample_splev us ps =
     Inr [map (\<lambda>u. fst (hd ps) + u * (fst (last ps) - fst (hd ps))) us,
          map (\<lambda>u. snd (hd ps) + u * (snd (last ps) - snd (hd ps))) us]"

definition sample_astype_str :: "cell \<Rightarrow> string" where
  "sample_astype_str c = (case c of StrCell s \<Rightarrow> s | _ \<Rightarrow> [])"

definition sample_astype_int :: "cell \<Rightarrow> error + int" where
  "sample_astype_int c =
     (case c of
        IntCell i \<Rightarrow> Inr i
      | FloatCell r \<Rightarrow> Inr (if r \<ge> 0 then \<lfloor>r\<rfloor> else \<lceil>r\<rceil>)
      | _ \<Rightarrow> Inl (ValueError ''invalid literal for int()''))"

definition sample_lib :: "(dataframe, point list) lib" where
  "sample_lib =
     \<lparr>read_csv = Inr,
      wkt_loads = sample_wkt,
      astype_str = sample_astype_str,
      astype_int = sample_astype_int,
      intersects = sample_intersects,
      transform = (\<lambda>c0 c p. p),
      splprep = sample_splprep,
      splev = sample_splev\<rparr>"

definition sample_columns :: "string list" where
  "sample_columns = [''geometry'', ''Road Number'', ''speed_limit'', ''KSI Count'']"

definition sample_row :: "string \<Rightarrow> string \<Rightarrow> int \<Rightarrow> int \<Rightarrow> string \<Rightarrow> cell" where
  "sample_row wkt road speed ksi =
     (\<lambda>name. if name = ''geometry'' then StrCell wkt
             else if name = ''Road Number'' then StrCell road
             else if name = ''speed_limit'' then IntCell speed
             else if name = ''KSI Count'' then IntCell ksi
             else NaN)"

definition sample_table_mixed :: dataframe where
  "sample_table_mixed =
     \<lparr>columns = sample_columns,
      rows = [sample_row ''LINESTRING (0.5 51.5, 0.6 51.6)'' ''A12'' 30 3,
              sample_row ''LINESTRING (0.5 51.5, 0.6 51.6)'' ''A12'' 30 0,
              sample_row ''POINT (0.5 51.5)'' ''B1'' 40 10]\<rparr>"

definition sample_table_unparsable :: dataframe where
  "sample_table_unparsable =
     \<lparr>columns = sample_columns,
      rows = [sample_row ''LINESTRING (0.5 51.5, 0.6 51.6)'' ''A12'' 30 3,
              sample_row ''not a geometry'' ''A12'' 30 5]\<rparr>"

definition sample_table_empty_line :: dataframe where
  "sample_table_empty_line =
     \<lparr>columns = sample_columns,
      rows = [sample_row ''LINESTRING EMPTY'' ''A12'' 30 3]\<rparr>"

definition sample_line :: geom where
  "sample_line = \<lparr>geom_type = LineString, coords = [(0.5, 51.5), (0.6, 51.6)]\<rparr>"

definition sample_segment :: "int \<Rightarrow> road_segment" where
  "sample_segment ksi =
     \<lparr>geometry = sample_line, road_number = ''A12'', speed_limit = 30, ksi_count = ksi\<rparr>"

definition sample_curve :: geom where
  "sample_curve =
     \<lparr>geom_type = LineString,
      coords = [(0.5, 51.5), (0.6, 51.6), (0.7, 51.5), (0.8, 51.6), (0.9, 51.5)]\<rparr>"

definition sample_stutter :: geom where
  "sample_stutter =
     \<lparr>geom_type = LineString,
      coords = [(0.5, 51.5), (0.6, 51.6), (0.6, 51.6), (0.8, 51.6), (0.9, 51.5)]\<rparr>"

definition sample_stutter_segment :: road_segment where
  "sample_stutter_segment =
     \<lparr>geometry = sample_stutter, road_number = ''A12'', speed_limit = 30, ksi_count = 3\<rparr>"

definition sample_sidebar :: sidebar where
  "sample_sidebar =
     \<lparr>all_roads = False, picked_roads = [''A12''], all_speeds = False, picked_speeds = [30],
      filter_1_4 = True, filter_5_7 = True, filter_8 = True\<rparr>"

section \<open>Loading\<close>

lemma apply_raising_Inr: "apply_raising f xs = Inr ys \<longleftrightarrow> map f xs = map Inr ys"
proof (induction xs arbitrary: ys)
  case Nil
  show ?case by auto
next
  case (Cons a xs)
  show ?case
  proof (cases "f a")
    case (Inl e)
    then show ?thesis by (cases ys) auto
  next
    case (Inr y)
    show ?thesis
    proof (cases "apply_raising f xs")
      case (Inl e)
      with Cons.IH have "\<And>zs. map f xs \<noteq> map Inr zs" by simp
      with Inl Inr show ?thesis by (cases ys) auto
    next
      case r: (Inr zs)
      with Cons.IH[of zs] have "map f xs = map Inr zs" by simp
      with r Inr show ?thesis by (cases ys) (auto simp: inj_map_eq_map)
    qed
  qed
qed

lemma apply_raising_length: "apply_raising f xs = Inr ys \<Longrightarrow> length ys = length xs"
  by (auto simp: apply_raising_Inr dest: map_eq_imp_length_eq)

lemma apply_raising_Inl: "(\<exists>e. apply_raising f xs = Inl e) \<longleftrightarrow> (\<exists>x \<in> set xs. \<exists>e. f x = Inl e)"
  by (induction xs) (auto split: sum.splits)

lemma select_zip_map:
  "length xs = length ys \<Longrightarrow> select (zip xs ys) (map P ys) = filter (\<lambda>(x, y). P y) (zip xs ys)"
  by (induction xs ys rule: list_induct2) (auto simp: select_def)

lemma column_length: "column df name rs = Inr cs \<Longrightarrow> cs = map (\<lambda>r. r name) rs"
  by (auto simp: column_def split: if_splits)

lemma load_data_Inr:
  assumes "load_data L file = Inr gdf"
  shows "\<exists>df geoms.
           read_csv L file = Inr df \<and> ''geometry'' \<in> set (columns df)
           \<and> map (wkt_loads L) (map (\<lambda>r. r ''geometry'') (rows df)) = map Inr geoms
           \<and> crs gdf = None \<and> records gdf \<noteq> []
           \<and> map geometry (records gdf) = map snd (kept_rows df geoms)
           \<and> map road_number (records gdf)
               = map (\<lambda>(r, g). strip (astype_str L (fillna (StrCell ''Unknown'') (r ''Road Number''))))
                     (kept_rows df geoms)
           \<and> map (\<lambda>r. Inr (speed_limit r)) (records gdf)
               = map (\<lambda>(r, g). astype_int L (fillna (IntCell 0) (r ''speed_limit''))) (kept_rows df geoms)
           \<and> map (\<lambda>r. Inr (ksi_count r)) (records gdf)
               = map (\<lambda>(r, g). astype_int L (fillna (IntCell 0) (r ''KSI Count''))) (kept_rows df geoms)"
proof -
  from assms obtain df where df: "read_csv L file = Inr df"
    by (auto simp: load_data_def split: sum.splits)
  from assms df have geo: "''geometry'' \<in> set (columns df)"
    by (auto simp: load_data_def split: sum.splits if_splits)
  from assms df geo obtain geoms where
    geoms: "apply_raising (wkt_loads L) (map (\<lambda>r. r ''geometry'') (rows df)) = Inr geoms"
    by (auto simp: load_data_def split: sum.splits if_splits)
  have len: "length (rows df) = length geoms"
    using apply_raising_length[OF geoms] by simp
  define kept where "kept = kept_rows df geoms"
  have kept: "select (zip (rows df) geoms) (map (\<lambda>t. t = LineString) (map geom_type geoms)) = kept"
    using select_zip_map[OF len, of "\<lambda>g. geom_type g = LineString"]
    by (simp add: kept_def kept_rows_def comp_def)
  from assms df geo geoms kept obtain roads0 speeds0 speeds ksis0 ksis where
    ne: "kept \<noteq> []" and
    c1: "column df ''Road Number'' (map fst kept) = Inr roads0" and
    c2: "column df ''speed_limit'' (map fst kept) = Inr speeds0" and
    a2: "apply_raising (\<lambda>c. astype_int L (fillna (IntCell 0) c)) speeds0 = Inr speeds" and
    c3: "column df ''KSI Count'' (map fst kept) = Inr ksis0" and
    a3: "apply_raising (\<lambda>c. astype_int L (fillna (IntCell 0) c)) ksis0 = Inr ksis" and
    res: "gdf = \<lparr>crs = None,
                 records = map (\<lambda>(g, road, speed, ksi).
                                  \<lparr>geometry = g, road_number = road, speed_limit = speed, ksi_count = ksi\<rparr>)
                    (zip (map snd kept)
                      (zip (map (\<lambda>c. strip (astype_str L (fillna (StrCell ''Unknown'') c))) roads0)
                        (zip speeds ksis)))\<rparr>"
    by (auto simp: load_data_def Let_def split: sum.splits if_splits)
  note r0 = column_length[OF c1] and s0 = column_length[OF c2] and k0 = column_length[OF c3]
  have ls: "length speeds = length kept" using apply_raising_length[OF a2] s0 by simp
  have lk: "length ksis = length kept" using apply_raising_length[OF a3] k0 by simp
  have lr: "length roads0 = length kept" using r0 by simp
  have g: "map geometry (records gdf) = map snd kept"
    unfolding res using ls lk lr
    by (auto intro!: nth_equalityI)
  have rd: "map road_number (records gdf)
            = map (\<lambda>c. strip (astype_str L (fillna (StrCell ''Unknown'') c))) roads0"
    unfolding res using ls lk lr
    by (auto intro!: nth_equalityI)
  have sp: "map speed_limit (records gdf) = speeds"
    unfolding res using ls lk lr
    by (auto intro!: nth_equalityI)
  have ks: "map ksi_count (records gdf) = ksis"
    unfolding res using ls lk lr
    by (auto intro!: nth_equalityI)
  have nonempty: "records gdf \<noteq> []"
    using g ne by (cases "records gdf") auto
  have sp': "map (\<lambda>(r, g). astype_int L (fillna (IntCell 0) (r ''speed_limit''))) kept
             = map (\<lambda>r. Inr (speed_limit r)) (records gdf)"
    using a2 unfolding sp[symmetric] s0
    by (simp add: apply_raising_Inr comp_def case_prod_unfold)
  have ks': "map (\<lambda>(r, g). astype_int L (fillna (IntCell 0) (r ''KSI Count''))) kept
             = map (\<lambda>r. Inr (ksi_count r)) (records gdf)"
    using a3 unfolding ks[symmetric] k0
    by (simp add: apply_raising_Inr comp_def case_prod_unfold)
  have rd': "map road_number (records gdf)
             = map (\<lambda>(r, g). strip (astype_str L (fillna (StrCell ''Unknown'') (r ''Road Number'')))) kept"
    unfolding rd r0 by (simp add: comp_def case_prod_unfold)
  have p: "map (wkt_loads L) (map (\<lambda>r. r ''geometry'') (rows df)) = map Inr geoms"
    using geoms by (simp only: apply_raising_Inr)
  have c: "crs gdf = None" by (simp add: res)
  from df geo p c nonempty g rd' sp' ks' show ?thesis
    unfolding kept_def by (intro exI[of _ df] exI[of _ geoms]) simp
qed

lemma kept_rows_geoms':
  "length rs = length geoms \<Longrightarrow>
   map snd (filter (\<lambda>(r, g). geom_type g = LineString) (zip rs geoms))
     = filter (\<lambda>g. geom_type g = LineString) geoms"
  by (induction rs geoms rule: list_induct2) auto

lemma apply_raising_total:
  "(\<forall>x \<in> set xs. \<exists>y. f x = Inr y) \<Longrightarrow> \<exists>ys. apply_raising f xs = Inr ys"
  using apply_raising_Inl[of f xs] by (cases "apply_raising f xs") fastforce+

lemma load_data_unparsable:
  assumes "read_csv L file = Inr df" "''geometry'' \<in> set (columns df)"
    "r \<in> set (rows df)" "wkt_loads L (r ''geometry'') = Inl e"
  shows "\<exists>e'. load_data L file = Inl (ErrorLoadingData e')"
proof -
  have "\<exists>e'. apply_raising (wkt_loads L) (map (\<lambda>r. r ''geometry'') (rows df)) = Inl e'"
    unfolding apply_raising_Inl using assms(3,4) by auto
  with assms(1,2) show ?thesis by (auto simp: load_data_def)
qed

lemma load_data_succeeds:
  assumes "read_csv L file = Inr df" "''geometry'' \<in> set (columns df)"
    "map (wkt_loads L) (map (\<lambda>r. r ''geometry'') (rows df)) = map Inr geoms"
    "kept_rows df geoms \<noteq> []"
    "''Road Number'' \<in> set (columns df)" "''speed_limit'' \<in> set (columns df)"
    "''KSI Count'' \<in> set (columns df)"
    "\<forall>(r, g) \<in> set (kept_rows df geoms).
        (\<exists>i. astype_int L (fillna (IntCell 0) (r ''speed_limit'')) = Inr i)
        \<and> (\<exists>i. astype_int L (fillna (IntCell 0) (r ''KSI Count'')) = Inr i)"
  shows "\<exists>gdf. load_data L file = Inr gdf"
proof -
  have geoms: "apply_raising (wkt_loads L) (map (\<lambda>r. r ''geometry'') (rows df)) = Inr geoms"
    using assms(3) by (simp only: apply_raising_Inr)
  have len: "length (rows df) = length geoms"
    using apply_raising_length[OF geoms] by simp
  have kept: "select (zip (rows df) geoms) (map (\<lambda>t. t = LineString) (map geom_type geoms))
              = kept_rows df geoms"
    using select_zip_map[OF len, of "\<lambda>g. geom_type g = LineString"]
    by (simp add: kept_rows_def comp_def)
  obtain speeds where sp: "apply_raising (\<lambda>c. astype_int L (fillna (IntCell 0) c))
        (map (\<lambda>r. r ''speed_limit'') (map fst (kept_rows df geoms))) = Inr speeds"
    using apply_raising_total[of "map (\<lambda>r. r ''speed_limit'') (map fst (kept_rows df geoms))"
        "\<lambda>c. astype_int L (fillna (IntCell 0) c)"] assms(8)
    by fastforce
  obtain ksis where ks: "apply_raising (\<lambda>c. astype_int L (fillna (IntCell 0) c))
        (map (\<lambda>r. r ''KSI Count'') (map fst (kept_rows df geoms))) = Inr ksis"
    using apply_raising_total[of "map (\<lambda>r. r ''KSI Count'') (map fst (kept_rows df geoms))"
        "\<lambda>c. astype_int L (fillna (IntCell 0) c)"] assms(8)
    by fastforce
  show ?thesis
    using assms(1,2,4,5,6,7) geoms kept sp ks
    by (simp add: load_data_def Let_def column_def)
qed

lemmas sample_defs =
  sample_lib_def sample_wkt_def sample_columns_def sample_row_def sample_astype_str_def
  sample_astype_int_def sample_segment_def sample_line_def

lemma strip_A12: "strip ''A12'' = ''A12''"
  by (simp add: strip_def is_space_def)

lemma load_mixed:
  "load_data sample_lib sample_table_mixed
     = Inr \<lparr>crs = None, records = [sample_segment 3, sample_segment 0]\<rparr>"
  by (simp add: load_data_def sample_table_mixed_def sample_defs select_def column_def fillna_def
      strip_A12)

lemma load_unparsable:
  "load_data sample_lib sample_table_unparsable = Inl (ErrorLoadingData (LibraryError ''ParseException''))"
  by (simp add: load_data_def sample_table_unparsable_def sample_defs)

lemma load_empty_line:
  "load_data sample_lib sample_table_empty_line
     = Inr \<lparr>crs = None, records = [\<lparr>geometry = \<lparr>geom_type = LineString, coords = []\<rparr>,
          road_number = ''A12'', speed_limit = 30, ksi_count = 3\<rparr>]\<rparr>"
  by (simp add: load_data_def sample_table_empty_line_def sample_defs select_def column_def fillna_def
      strip_A12)

text \<open>
  C2, as stated, fails for a row that does not parse: \<^verbatim>\<open>wkt.loads\<close> is applied to the whole
  column inside the one \<^verbatim>\<open>try\<close> block of \<^verbatim>\<open>load_data\<close>, so its exception ends the load,
  and the row before it, which parses to a LineString, is lost with it.
\<close>

theorem load_data_aborts_on_unparsable_row:
  "wkt_loads sample_lib (sample_row ''LINESTRING (0.5 51.5, 0.6 51.6)'' ''A12'' 30 3 ''geometry'')
     = Inr sample_line
   \<and> load_data sample_lib sample_table_unparsable
     = Inl (ErrorLoadingData (LibraryError ''ParseException''))
   \<and> load_data_frame sample_lib sample_table_unparsable = empty_frame"
  by (simp add: load_data_frame_def load_unparsable) (simp add: sample_defs)

text \<open>
  C2, amended. For a table with a geometry column: a row whose geometry does not parse
  ends the whole load with a message and the empty frame; when the load succeeds, the
  result is the rows whose geometry is a LineString, in order, with their road number,
  speed limit and count, and the rows of another type are dropped; and the load does
  succeed when every geometry parses, a LineString is among them, the three other columns
  exist and the numbers of the kept rows convert, whatever the dropped rows hold.
\<close>

theorem load_data_rows:
  assumes "read_csv L file = Inr df" "''geometry'' \<in> set (columns df)"
  shows
    "((\<exists>r \<in> set (rows df). \<exists>e. wkt_loads L (r ''geometry'') = Inl e)
        \<longrightarrow> (\<exists>e. load_data L file = Inl (ErrorLoadingData e)) \<and> load_data_frame L file = empty_frame)
     \<and> (load_data L file = Inr gdf
        \<longrightarrow> (\<exists>geoms.
              map (wkt_loads L) (map (\<lambda>r. r ''geometry'') (rows df)) = map Inr geoms
              \<and> map geometry (records gdf) = map snd (kept_rows df geoms)
              \<and> map road_number (records gdf)
                  = map (\<lambda>(r, g). strip (astype_str L (fillna (StrCell ''Unknown'') (r ''Road Number''))))
                        (kept_rows df geoms)
              \<and> map (\<lambda>r. Inr (speed_limit r)) (records gdf)
                  = map (\<lambda>(r, g). astype_int L (fillna (IntCell 0) (r ''speed_limit'')))
                        (kept_rows df geoms)
              \<and> map (\<lambda>r. Inr (ksi_count r)) (records gdf)
                  = map (\<lambda>(r, g). astype_int L (fillna (IntCell 0) (r ''KSI Count'')))
                        (kept_rows df geoms)))
     \<and> (map (wkt_loads L) (map (\<lambda>r. r ''geometry'') (rows df)) = map Inr geoms
        \<and> kept_rows df geoms \<noteq> []
        \<and> ''Road Number'' \<in> set (columns df) \<and> ''speed_limit'' \<in> set (columns df)
        \<and> ''KSI Count'' \<in> set (columns df)
        \<and> (\<forall>(r, g) \<in> set (kept_rows df geoms).
              (\<exists>i. astype_int L (fillna (IntCell 0) (r ''speed_limit'')) = Inr i)
              \<and> (\<exists>i. astype_int L (fillna (IntCell 0) (r ''KSI Count'')) = Inr i))
        \<longrightarrow> (\<exists>gdf. load_data L file = Inr gdf))"
proof (intro conjI impI)
  assume "\<exists>r \<in> set (rows df). \<exists>e. wkt_loads L (r ''geometry'') = Inl e"
  then show a: "\<exists>e. load_data L file = Inl (ErrorLoadingData e)"
    using load_data_unparsable[OF assms] by blast
  then show "load_data_frame L file = empty_frame"
    by (auto simp: load_data_frame_def)
next
  assume "load_data L file = Inr gdf"
  from load_data_Inr[OF this] assms(1)
  show "\<exists>geoms.
              map (wkt_loads L) (map (\<lambda>r. r ''geometry'') (rows df)) = map Inr geoms
              \<and> map geometry (records gdf) = map snd (kept_rows df geoms)
              \<and> map road_number (records gdf)
                  = map (\<lambda>(r, g). strip (astype_str L (fillna (StrCell ''Unknown'') (r ''Road Number''))))
                        (kept_rows df geoms)
              \<and> map (\<lambda>r. Inr (speed_limit r)) (records gdf)
                  = map (\<lambda>(r, g). astype_int L (fillna (IntCell 0) (r ''speed_limit'')))
                        (kept_rows df geoms)
              \<and> map (\<lambda>r. Inr (ksi_count r)) (records gdf)
                  = map (\<lambda>(r, g). astype_int L (fillna (IntCell 0) (r ''KSI Count'')))
                        (kept_rows df geoms)"
    by auto
next
  assume "map (wkt_loads L) (map (\<lambda>r. r ''geometry'') (rows df)) = map Inr geoms
        \<and> kept_rows df geoms \<noteq> []
        \<and> ''Road Number'' \<in> set (columns df) \<and> ''speed_limit'' \<in> set (columns df)
        \<and> ''KSI Count'' \<in> set (columns df)
        \<and> (\<forall>(r, g) \<in> set (kept_rows df geoms).
              (\<exists>i. astype_int L (fillna (IntCell 0) (r ''speed_limit'')) = Inr i)
              \<and> (\<exists>i. astype_int L (fillna (IntCell 0) (r ''KSI Count'')) = Inr i))"
  then show "\<exists>gdf. load_data L file = Inr gdf"
    using load_data_succeeds[OF assms, of geoms] by blast
qed

theorem load_data_rows_witness:
  "load_data_frame sample_lib sample_table_unparsable = empty_frame
   \<and> (\<exists>geoms. map (wkt_loads sample_lib) (map (\<lambda>r. r ''geometry'') (rows sample_table_mixed))
                = map Inr geoms
        \<and> map geometry [sample_segment 3, sample_segment 0]
            = map snd (kept_rows sample_table_mixed geoms))
   \<and> (\<exists>gdf. load_data sample_lib sample_table_mixed = Inr gdf)"
proof -
  have r1: "read_csv sample_lib sample_table_unparsable = Inr sample_table_unparsable"
    and c1: "''geometry'' \<in> set (columns sample_table_unparsable)"
    by (simp_all add: sample_lib_def sample_table_unparsable_def sample_columns_def)
  have bad: "\<exists>r \<in> set (rows sample_table_unparsable). \<exists>e. wkt_loads sample_lib (r ''geometry'') = Inl e"
    by (simp add: sample_table_unparsable_def sample_defs)
  have r2: "read_csv sample_lib sample_table_mixed = Inr sample_table_mixed"
    and c2: "''geometry'' \<in> set (columns sample_table_mixed)"
    by (simp_all add: sample_lib_def sample_table_mixed_def sample_columns_def)
  let ?point = "\<lparr>geom_type = Point, coords = [(0.5, 51.5 :: real)]\<rparr>"
  have parse: "map (wkt_loads sample_lib) (map (\<lambda>r. r ''geometry'') (rows sample_table_mixed))
               = map Inr [sample_line, sample_line, ?point]"
    by (simp add: sample_table_mixed_def sample_defs)
  have kept: "kept_rows sample_table_mixed [sample_line, sample_line, ?point]
              = [(sample_row ''LINESTRING (0.5 51.5, 0.6 51.6)'' ''A12'' 30 3, sample_line),
                 (sample_row ''LINESTRING (0.5 51.5, 0.6 51.6)'' ''A12'' 30 0, sample_line)]"
    by (simp add: kept_rows_def sample_table_mixed_def sample_line_def)
  have conv: "\<forall>(r, g) \<in> set (kept_rows sample_table_mixed [sample_line, sample_line, ?point]).
      (\<exists>i. astype_int sample_lib (fillna (IntCell 0) (r ''speed_limit'')) = Inr i)
      \<and> (\<exists>i. astype_int sample_lib (fillna (IntCell 0) (r ''KSI Count'')) = Inr i)"
    unfolding kept by (simp add: sample_defs fillna_def)
  have cols: "''Road Number'' \<in> set (columns sample_table_mixed)
      \<and> ''speed_limit'' \<in> set (columns sample_table_mixed)
      \<and> ''KSI Count'' \<in> set (columns sample_table_mixed)"
    by (simp add: sample_table_mixed_def sample_columns_def)
  have ne: "kept_rows sample_table_mixed [sample_line, sample_line, ?point] \<noteq> []"
    unfolding kept by simp
  from load_data_rows[OF r1 c1] bad
  have a: "load_data_frame sample_lib sample_table_unparsable = empty_frame" by blast
  from load_data_rows[OF r2 c2, of "\<lparr>crs = None, records = [sample_segment 3, sample_segment 0]\<rparr>"]
    load_mixed
  have b: "\<exists>geoms. map (wkt_loads sample_lib) (map (\<lambda>r. r ''geometry'') (rows sample_table_mixed))
                = map Inr geoms
        \<and> map geometry [sample_segment 3, sample_segment 0]
            = map snd (kept_rows sample_table_mixed geoms)"
    by auto
  from load_data_rows[OF r2 c2, of _ "[sample_line, sample_line, ?point]"] parse ne cols conv
  have c: "\<exists>gdf. load_data sample_lib sample_table_mixed = Inr gdf" by blast
  from a b c show ?thesis by blast
qed

text \<open>
  C9, as stated, fails: the loader checks the type name only, and the empty LineString,
  with no vertex, is a LineString.
\<close>

theorem load_data_keeps_empty_linestring:
  "load_data sample_lib sample_table_empty_line
     = Inr \<lparr>crs = None,
            records = [\<lparr>geometry = \<lparr>geom_type = LineString, coords = []\<rparr>,
                        road_number = ''A12'', speed_limit = 30, ksi_count = 3\<rparr>]\<rparr>
   \<and> map (\<lambda>r. length (coords (geometry r)))
         (records (load_data_frame sample_lib sample_table_empty_line)) = [0]"
  by (simp add: load_data_frame_def load_empty_line)

text \<open>
  C9, amended. After a successful load the frame is not empty, every geometry is a
  LineString that the reader returned, and the geometries are those of the rows of type
  LineString, in order: every row of another type is dropped. The number of vertices is
  not checked; where the reader never returns a LineString of one vertex, a geometry of
  the frame has no vertex or at least 2.
\<close>

theorem load_data_geometries:
  assumes "load_data L file = Inr gdf"
  shows "records gdf \<noteq> []
     \<and> (\<forall>r \<in> set (records gdf).
           geom_type (geometry r) = LineString \<and> (\<exists>c. wkt_loads L c = Inr (geometry r)))
     \<and> (\<exists>df geoms. read_csv L file = Inr df
           \<and> map (wkt_loads L) (map (\<lambda>r. r ''geometry'') (rows df)) = map Inr geoms
           \<and> map geometry (records gdf) = filter (\<lambda>g. geom_type g = LineString) geoms)
     \<and> ((\<forall>c g. wkt_loads L c = Inr g \<and> geom_type g = LineString \<longrightarrow> length (coords g) \<noteq> 1)
          \<longrightarrow> (\<forall>r \<in> set (records gdf).
                 coords (geometry r) = [] \<or> 2 \<le> length (coords (geometry r))))"
proof -
  from load_data_Inr[OF assms] obtain df geoms where
    df: "read_csv L file = Inr df" and
    p: "map (wkt_loads L) (map (\<lambda>r. r ''geometry'') (rows df)) = map Inr geoms" and
    ne: "records gdf \<noteq> []" and
    g: "map geometry (records gdf) = map snd (kept_rows df geoms)"
    by blast
  have len: "length (rows df) = length geoms"
    using map_eq_imp_length_eq[OF p] by simp
  have g': "map geometry (records gdf) = filter (\<lambda>g. geom_type g = LineString) geoms"
    unfolding g kept_rows_def using kept_rows_geoms'[OF len] .
  have parsed: "\<exists>c. wkt_loads L c = Inr x" if "x \<in> set geoms" for x
  proof -
    from that have "Inr x \<in> set (map (wkt_loads L) (map (\<lambda>r. r ''geometry'') (rows df)))"
      unfolding p by simp
    then show ?thesis by (auto simp: image_iff)
  qed
  have each: "geom_type (geometry r) = LineString \<and> (\<exists>c. wkt_loads L c = Inr (geometry r))"
    if "r \<in> set (records gdf)" for r
  proof -
    from that have "geometry r \<in> set (map geometry (records gdf))" by simp
    then have "geometry r \<in> set geoms \<and> geom_type (geometry r) = LineString"
      unfolding g' by simp
    with parsed show ?thesis by blast
  qed
  have cnt: "coords (geometry r) = [] \<or> 2 \<le> length (coords (geometry r))"
    if "\<forall>c g. wkt_loads L c = Inr g \<and> geom_type g = LineString \<longrightarrow> length (coords g) \<noteq> 1"
      "r \<in> set (records gdf)" for r
  proof -
    from each[OF that(2)] that(1) have "length (coords (geometry r)) \<noteq> 1" by blast
    then show ?thesis by (cases "coords (geometry r)") (auto simp: Suc_le_eq)
  qed
  from ne each df p g' cnt show ?thesis by blast
qed

lemma sample_wkt_no_single_vertex:
  "\<forall>c g. wkt_loads sample_lib c = Inr g \<and> geom_type g = LineString \<longrightarrow> length (coords g) \<noteq> 1"
  by (auto simp: sample_lib_def sample_wkt_def split: cell.splits if_splits)

theorem load_data_geometries_witness:
  "load_data sample_lib sample_table_mixed
     = Inr \<lparr>crs = None, records = [sample_segment 3, sample_segment 0]\<rparr>
   \<and> list_all (\<lambda>r. geom_type (geometry r) = LineString \<and> 2 \<le> length (coords (geometry r)))
        [sample_segment 3, sample_segment 0]"
proof -
  from load_data_geometries[OF load_mixed] sample_wkt_no_single_vertex
  have "\<forall>r \<in> set [sample_segment 3, sample_segment 0].
          geom_type (geometry r) = LineString
          \<and> (coords (geometry r) = [] \<or> 2 \<le> length (coords (geometry r)))"
    by simp
  then show ?thesis
    by (simp add: load_mixed) (simp add: sample_segment_def sample_line_def)
qed

section \<open>The filters\<close>

text \<open>Boolean indexing with a mask computed row by row is a filter.\<close>

lemma select_map: "select xs (map P xs) = filter P xs"
  by (induction xs) (auto simp: select_def)

lemma region_filter_eq: "region_filter L rs = filter (\<lambda>r. intersects L (geometry r) essex_bbox) rs"
  by (simp add: region_filter_def select_map)

lemma nonzero_filter_eq: "nonzero_filter rs = filter (\<lambda>r. ksi_count r \<noteq> 0) rs"
  by (simp add: nonzero_filter_def select_map)

lemma attribute_filter_eq:
  "attribute_filter roads speeds rs =
     filter (\<lambda>r. road_number r \<in> set roads \<and> speed_limit r \<in> set speeds) rs"
  by (simp add: attribute_filter_def select_map)

lemma or_masks: "map (\<lambda>(a, b). a \<or> b) (zip (map P xs) (map Q xs)) = map (\<lambda>x. P x \<or> Q x) xs"
  by (induction xs) auto

lemma ksi_filter_eq:
  "ksi_filter f14 f57 f8 rs =
     (if f14 \<or> f57 \<or> f8 then filter (\<lambda>r. in_enabled_bucket f14 f57 f8 (ksi_count r)) rs else rs)"
  by (cases f14; cases f57; cases f8)
     (auto simp: ksi_filter_def ksi_conditions_def or_masks select_map in_enabled_bucket_def
           intro!: filter_cong)

text \<open>
  C3. With no bucket enabled the list of conditions is empty and the script skips the
  filter: a segment with count 3, which falls in no enabled bucket, passes, where the
  claim wants the result empty. With a bucket enabled, \<open>ksi_filter_eq\<close> above is the
  claim: a segment passes exactly when its count falls in an enabled bucket.
\<close>

theorem ksi_filter_all_disabled_keeps_rows:
  "ksi_filter False False False [sample_segment 3] = [sample_segment 3]
   \<and> \<not> in_enabled_bucket False False False (ksi_count (sample_segment 3))"
  by (simp add: ksi_filter_def ksi_conditions_def in_enabled_bucket_def)

text \<open>
  C5, as stated, fails: the script drops the counts equal to 0, and a negative count,
  which \<^verbatim>\<open>astype(int)\<close> lets through, stays.
\<close>

theorem spatial_filter_keeps_negative_count:
  "spatial_filter sample_lib [sample_segment (- 2)] = [sample_segment (- 2)]
   \<and> \<not> 1 \<le> ksi_count (sample_segment (- 2))"
  by (simp add: spatial_filter_def region_filter_eq nonzero_filter_eq sample_lib_def
      sample_segment_def sample_intersects_def essex_bbox_def box_def bounds_def sample_line_def
      bbox_west_def bbox_east_def bbox_north_def bbox_south_def)

text \<open>
  C5, amended. After the region and zero-count stage every segment intersects the
  rectangle with west -0.2, south 51.2, east 1.5 and north 52.3, and its count is not 0;
  so a count that is not negative is 1 or more.
\<close>

theorem spatial_filter_invariant:
  "bounds essex_bbox = Some (- 0.2, 51.2, 1.5, 52.3)
   \<and> (\<forall>r \<in> set (spatial_filter L rs).
         intersects L (geometry r) essex_bbox \<and> ksi_count r \<noteq> 0
         \<and> (0 \<le> ksi_count r \<longrightarrow> 1 \<le> ksi_count r))"
  by (auto simp: spatial_filter_def region_filter_eq nonzero_filter_eq essex_bbox_def box_def
      bounds_def bbox_west_def bbox_east_def bbox_north_def bbox_south_def)

theorem spatial_filter_invariant_witness:
  "spatial_filter sample_lib [sample_segment 3, sample_segment 0] = [sample_segment 3]
   \<and> intersects sample_lib (geometry (sample_segment 3)) essex_bbox
   \<and> 1 \<le> ksi_count (sample_segment 3)"
  using spatial_filter_invariant [of sample_lib "[sample_segment 3, sample_segment 0]"]
  by (simp add: spatial_filter_def region_filter_eq nonzero_filter_eq sample_lib_def
      sample_segment_def sample_intersects_def essex_bbox_def box_def bounds_def sample_line_def
      bbox_west_def bbox_east_def bbox_north_def bbox_south_def)

text \<open>
  C8. The region filter, the zero-count filter, the road and speed filter and the bucket
  filter, applied one after the other in any order, give the list that the script's order
  gives, for every list of segments and every selection.
\<close>

theorem filters_commute:
  assumes "mset fs = mset [region_filter L, nonzero_filter, attribute_filter roads speeds, ksi_filter f14 f57 f8]"
  shows "fold (\<lambda>f. f) fs rs = ksi_filter f14 f57 f8 (attribute_filter roads speeds (nonzero_filter (region_filter L rs)))"
proof -
  let ?gs = "[region_filter L, nonzero_filter, attribute_filter roads speeds, ksi_filter f14 f57 f8]"
  have filt: "\<exists>P. f = filter P" if "f \<in> set ?gs" for f
  proof -
    have "ksi_filter f14 f57 f8 = filter (\<lambda>r. (f14 \<or> f57 \<or> f8) \<longrightarrow> in_enabled_bucket f14 f57 f8 (ksi_count r))"
      by (cases "f14 \<or> f57 \<or> f8") (simp_all add: fun_eq_iff ksi_filter_eq)
    moreover have "region_filter L = filter (\<lambda>r. intersects L (geometry r) essex_bbox)"
      by (simp add: fun_eq_iff region_filter_eq)
    moreover have "nonzero_filter = filter (\<lambda>r. ksi_count r \<noteq> 0)"
      by (simp add: fun_eq_iff nonzero_filter_eq)
    moreover have "attribute_filter roads speeds = filter (\<lambda>r. road_number r \<in> set roads \<and> speed_limit r \<in> set speeds)"
      by (simp add: fun_eq_iff attribute_filter_eq)
    ultimately show ?thesis using that by auto
  qed
  have comm: "f \<circ> g = g \<circ> f" if fg: "f \<in> set ?gs" "g \<in> set ?gs" for f g
  proof -
    obtain P Q where "f = filter P" "g = filter Q" using filt[OF fg(1)] filt[OF fg(2)] by blast
    then show ?thesis by (auto simp: fun_eq_iff conj_commute)
  qed
  have sets: "set fs = set ?gs"
    using assms by (rule mset_eq_setD)
  have "fold (\<lambda>f. f) fs = fold (\<lambda>f. f) ?gs"
  proof (rule fold_multiset_equiv)
    show "mset fs = mset ?gs" by (rule assms)
  next
    fix x y assume "x \<in> set fs" "y \<in> set fs"
    then show "x \<circ> y = y \<circ> x" using comm unfolding sets by blast
  qed
  then show ?thesis by simp
qed


theorem filters_commute_witness:
  "fold (\<lambda>f. f)
     [ksi_filter True False True, attribute_filter [''A12''] [30], nonzero_filter,
      region_filter sample_lib] [sample_segment 3, sample_segment 0]
   = ksi_filter True False True (attribute_filter [''A12''] [30]
       (nonzero_filter (region_filter sample_lib [sample_segment 3, sample_segment 0])))"
proof -
  have "mset [ksi_filter True False True, attribute_filter [''A12''] [30], nonzero_filter,
              region_filter sample_lib]
        = mset [region_filter sample_lib, nonzero_filter, attribute_filter [''A12''] [30],
                ksi_filter True False True]"
    by (simp add: ac_simps)
  then show ?thesis by (rule filters_commute)
qed

section \<open>Smoothing\<close>

lemma length_linspace: "linspace a b n = Inr us \<Longrightarrow> int (length us) = n"
  by (auto simp: linspace_def split: if_splits)

lemma item_in_set: "item xs i = Inr x \<Longrightarrow> x \<in> set xs"
  by (auto simp: item_def split: if_splits)

lemma LineString_of_coords: "LineString_of ps = Inr g \<Longrightarrow> geom_type g = LineString \<and> coords g = ps"
  by (auto simp: LineString_of_def split: if_splits)

lemma smooth_try_short: "length (coords g) \<le> 2 \<Longrightarrow> smooth_try L g s n = Inr g"
  by (simp add: smooth_try_def)

lemma smooth_try_fitted:
  assumes "geom_type g = LineString" "2 < length (coords g)" "smooth_try L g s n = Inr g'"
    "splev_keeps_shape L"
  shows "geom_type g' = LineString \<and> int (length (coords g')) = n"
proof -
  from assms(1-3) obtain tck u unew out out0 out1 where
    lin: "linspace 0 1.0 n = Inr unew" and
    ev: "splev L unew tck = Inr out" and
    i0: "item out 0 = Inr out0" and i1: "item out 1 = Inr out1" and
    mk: "LineString_of (zip out0 out1) = Inr g'"
    by (auto simp: smooth_try_def Let_def split: sum.splits prod.splits)
  from ev assms(4) item_in_set[OF i0] item_in_set[OF i1]
  have "length out0 = length unew" "length out1 = length unew"
    by (auto simp: splev_keeps_shape_def)
  with LineString_of_coords[OF mk] length_linspace[OF lin] show ?thesis by simp
qed

text \<open>
  C1. A LineString with more than 2 vertices whose fit succeeds (the \<^verbatim>\<open>try\<close> block
  returns) is replaced by a LineString with exactly \<open>num_points\<close> vertices, given that
  \<^verbatim>\<open>splev\<close> returns arrays of the shape of its argument; a geometry with 2 vertices or
  fewer is returned as it is.
\<close>

theorem smooth_geometry_vertex_count:
  "(geom_type g = LineString \<and> 2 < length (coords g) \<and> smooth_try L g s n = Inr g'
      \<and> splev_keeps_shape L
    \<longrightarrow> smooth_geometry L g s n = g' \<and> geom_type g' = LineString \<and> int (length (coords g')) = n)
   \<and> (length (coords g) \<le> 2 \<longrightarrow> smooth_geometry L g s n = g)"
  using smooth_try_fitted[of g L s n g'] smooth_try_short[of g L s n]
  by (auto simp: smooth_geometry_def)

lemma sample_keeps_shape: "splev_keeps_shape sample_lib"
  by (auto simp: splev_keeps_shape_def sample_lib_def sample_splev_def)

lemma sample_smooth_curve:
  "smooth_try sample_lib sample_curve 0 4 =
     Inr \<lparr>geom_type = LineString, coords = [(0.5, 51.5), (19/30, 51.5), (23/30, 51.5), (0.9, 51.5)]\<rparr>"
  by (simp add: smooth_try_def sample_curve_def sample_lib_def sample_splprep_def linspace_def
      sample_splev_def item_def LineString_of_def upt_rec)

theorem smooth_geometry_vertex_count_witness:
  "length (coords (smooth_geometry sample_lib sample_curve 0 4)) = 4
   \<and> smooth_geometry sample_lib sample_line 0 4 = sample_line"
proof -
  let ?g' = "\<lparr>geom_type = LineString, coords = [(0.5, 51.5), (19/30, 51.5), (23/30, 51.5), (0.9, 51.5 :: real)]\<rparr>"
  have a: "geom_type sample_curve = LineString \<and> 2 < length (coords sample_curve)"
    by (simp add: sample_curve_def)
  have b: "length (coords sample_line) \<le> 2" by (simp add: sample_line_def)
  from smooth_geometry_vertex_count[of sample_curve sample_lib 0 4 ?g'] a sample_smooth_curve sample_keeps_shape
  have "smooth_geometry sample_lib sample_curve 0 4 = ?g'" by simp
  moreover from smooth_geometry_vertex_count[of sample_line sample_lib 0 4] b
  have "smooth_geometry sample_lib sample_line 0 4 = sample_line" by simp
  ultimately show ?thesis by simp
qed

lemma smooth_geometry_failed: "smooth_try L g s n = Inl e \<Longrightarrow> smooth_geometry L g s n = g"
  by (simp add: smooth_geometry_def)

text \<open>
  C4. Smoothing keeps every segment: the output has as many segments as the input, with
  the same road numbers, speed limits and counts, and a segment whose fit raises is
  the segment it was.
\<close>

theorem smooth_all_keeps_records:
  "length (smooth_all L rs) = length rs
   \<and> map road_number (smooth_all L rs) = map road_number rs
   \<and> map speed_limit (smooth_all L rs) = map speed_limit rs
   \<and> map ksi_count (smooth_all L rs) = map ksi_count rs
   \<and> (\<forall>i < length rs. (\<exists>e. smooth_try L (geometry (rs ! i)) 0 500 = Inl e)
        \<longrightarrow> smooth_all L rs ! i = rs ! i)"
  by (auto simp: smooth_all_def smooth_geometry_failed)

lemma sample_stutter_fails:
  "smooth_try sample_lib sample_stutter 0 500 = Inl (ValueError ''Invalid inputs'')"
  by (simp add: smooth_try_def sample_stutter_def sample_lib_def sample_splprep_def)

theorem smooth_all_keeps_records_witness:
  "length (smooth_all sample_lib [sample_stutter_segment, sample_segment 3]) = 2
   \<and> smooth_all sample_lib [sample_stutter_segment, sample_segment 3] ! 0 = sample_stutter_segment"
proof -
  have "\<exists>e. smooth_try sample_lib (geometry ([sample_stutter_segment, sample_segment 3] ! 0)) 0 500 = Inl e"
    by (simp add: sample_stutter_segment_def sample_stutter_fails)
  with smooth_all_keeps_records[of sample_lib "[sample_stutter_segment, sample_segment 3]"]
  show ?thesis by simp
qed


section \<open>The coordinate reference system\<close>

lemma foldl_min_in: "foldl min (x::real) xs \<in> set (x # xs)"
  by (induction xs arbitrary: x) (auto simp: min_def)

lemma foldl_max_in: "foldl max (x::real) xs \<in> set (x # xs)"
  by (induction xs arbitrary: x) (auto simp: max_def)

lemma bounds_None: "bounds g = None \<longleftrightarrow> coords g = []"
  by (auto simp: bounds_def split: list.splits)

lemma bounds_in:
  assumes "bounds g = Some (x0, y0, x1, y1)"
  shows "x0 \<in> fst ` set (coords g) \<and> y0 \<in> snd ` set (coords g)
         \<and> x1 \<in> fst ` set (coords g) \<and> y1 \<in> snd ` set (coords g)"
proof -
  from assms obtain x y ps where c: "coords g = (x, y) # ps"
    and b: "x0 = foldl min x (map fst ps)" "y0 = foldl min y (map snd ps)"
      "x1 = foldl max x (map fst ps)" "y1 = foldl max y (map snd ps)"
    by (auto simp: bounds_def split: list.splits)
  have "x0 \<in> set (x # map fst ps)" "y0 \<in> set (y # map snd ps)"
    "x1 \<in> set (x # map fst ps)" "y1 \<in> set (y # map snd ps)"
    unfolding b by (rule foldl_min_in foldl_max_in)+
  then show ?thesis unfolding c by (auto simp: image_iff)
qed

lemma series_min_in: "series_min vs = Some m \<Longrightarrow> Some m \<in> set vs"
proof (induction vs arbitrary: m rule: series_min.induct)
  case (3 v vs)
  then show ?case by (cases "series_min vs") (auto simp: min_def split: if_splits)
qed auto

lemma series_max_in: "series_max vs = Some m \<Longrightarrow> Some m \<in> set vs"
proof (induction vs arbitrary: m rule: series_max.induct)
  case (3 v vs)
  then show ?case by (cases "series_max vs") (auto simp: max_def split: if_splits)
qed auto

lemma series_min_None: "series_min vs = None \<longleftrightarrow> (\<forall>v \<in> set vs. v = None)"
  by (induction vs rule: series_min.induct) (auto split: option.splits)

lemma series_max_None: "series_max vs = None \<longleftrightarrow> (\<forall>v \<in> set vs. v = None)"
  by (induction vs rule: series_max.induct) (auto split: option.splits)

lemma geographic_condition:
  assumes "geographic gdf"
  defines "bs \<equiv> map (\<lambda>r. bounds (geometry r)) (records gdf)"
  shows "gt (series_min (map minx bs)) (- 180) \<and> lt (series_max (map maxx bs)) 180
         \<and> gt (series_min (map miny bs)) (- 90) \<and> lt (series_max (map maxy bs)) 90"
proof -
  from assms(1) obtain r0 where r0: "r0 \<in> set (records gdf)" "coords (geometry r0) \<noteq> []"
    by (auto simp: geographic_def)
  then obtain b0 where b0: "bounds (geometry r0) = Some b0"
    using bounds_None[of "geometry r0"] by (cases "bounds (geometry r0)") auto
  have inb: "Some b0 \<in> set bs" using r0 b0 by (force simp: bs_def)
  have ok: "- 180 < x0 \<and> x1 < 180 \<and> - 90 < y0 \<and> y1 < 90"
    if "Some (x0, y0, x1, y1) \<in> set bs" for x0 y0 x1 y1
  proof -
    from that obtain r where r: "r \<in> set (records gdf)" "bounds (geometry r) = Some (x0, y0, x1, y1)"
      by (auto simp: bs_def)
    from bounds_in[OF r(2)] assms(1) r(1) show ?thesis
      by (fastforce simp: geographic_def)
  qed
  have okx0: "- 180 < m" if "b \<in> set bs" "minx b = Some m" for b m
    using that ok by (cases b) (auto simp: minx_def)
  have okx1: "m < 180" if "b \<in> set bs" "maxx b = Some m" for b m
    using that ok by (cases b) (auto simp: maxx_def)
  have oky0: "- 90 < m" if "b \<in> set bs" "miny b = Some m" for b m
    using that ok by (cases b) (auto simp: miny_def)
  have oky1: "m < 90" if "b \<in> set bs" "maxy b = Some m" for b m
    using that ok by (cases b) (auto simp: maxy_def)
  have 1: "gt (series_min (map minx bs)) (- 180)"
  proof (cases "series_min (map minx bs)")
    case None
    with inb show ?thesis by (force simp: series_min_None minx_def)
  next
    case (Some m)
    from series_min_in[OF Some] okx0 show ?thesis
      by (auto simp: gt_def Some)
  qed
  have 2: "lt (series_max (map maxx bs)) 180"
  proof (cases "series_max (map maxx bs)")
    case None
    with inb show ?thesis by (force simp: series_max_None maxx_def)
  next
    case (Some m)
    from series_max_in[OF Some] okx1 show ?thesis
      by (auto simp: lt_def Some)
  qed
  have 3: "gt (series_min (map miny bs)) (- 90)"
  proof (cases "series_min (map miny bs)")
    case None
    with inb show ?thesis by (force simp: series_min_None miny_def)
  next
    case (Some m)
    from series_min_in[OF Some] oky0 show ?thesis
      by (auto simp: gt_def Some)
  qed
  have 4: "lt (series_max (map maxy bs)) 90"
  proof (cases "series_max (map maxy bs)")
    case None
    with inb show ?thesis by (force simp: series_max_None maxy_def)
  next
    case (Some m)
    from series_max_in[OF Some] oky1 show ?thesis
      by (auto simp: lt_def Some)
  qed
  from 1 2 3 4 show ?thesis by simp
qed

lemma geographic_nonempty: "geographic gdf \<Longrightarrow> records gdf \<noteq> []"
  by (auto simp: geographic_def)

lemma detect_crs_geographic:
  assumes "geographic gdf" "crs gdf = None \<or> crs gdf = Some EPSG4326"
  shows "detect_crs L gdf = Done (gdf\<lparr>crs := Some EPSG4326\<rparr>)"
  using geographic_condition[OF assms(1)] geographic_nonempty[OF assms(1)] assms(2)
  by (auto simp: detect_crs_def Let_def set_crs_def)

text \<open>
  C7. On a frame that is already geographic, and unlabelled or labelled EPSG:4326, step 2
  only sets the label: the segments stay as they are, and a second application returns
  what the first returned.
\<close>

theorem detect_crs_idempotent:
  assumes "geographic gdf" "crs gdf = None \<or> crs gdf = Some EPSG4326"
  shows "detect_crs L gdf = Done (gdf\<lparr>crs := Some EPSG4326\<rparr>)
         \<and> detect_crs L (gdf\<lparr>crs := Some EPSG4326\<rparr>) = Done (gdf\<lparr>crs := Some EPSG4326\<rparr>)
         \<and> records (gdf\<lparr>crs := Some EPSG4326\<rparr>) = records gdf"
proof -
  let ?g1 = "gdf\<lparr>crs := Some EPSG4326\<rparr>"
  have "geographic ?g1" using assms(1) by (simp add: geographic_def)
  then have "detect_crs L ?g1 = Done (?g1\<lparr>crs := Some EPSG4326\<rparr>)"
    by (rule detect_crs_geographic) simp
  with detect_crs_geographic[OF assms, of L] show ?thesis by simp
qed

theorem detect_crs_idempotent_witness:
  "detect_crs sample_lib \<lparr>crs = None, records = [sample_segment 3]\<rparr>
     = Done \<lparr>crs = Some EPSG4326, records = [sample_segment 3]\<rparr>
   \<and> detect_crs sample_lib \<lparr>crs = Some EPSG4326, records = [sample_segment 3]\<rparr>
     = Done \<lparr>crs = Some EPSG4326, records = [sample_segment 3]\<rparr>"
proof -
  have g: "geographic \<lparr>crs = None, records = [sample_segment 3]\<rparr>"
    by (simp add: geographic_def sample_segment_def sample_line_def)
  from detect_crs_idempotent[OF g, of sample_lib] show ?thesis by simp
qed


section \<open>The colour of a count\<close>

text \<open>
  C10. \<^verbatim>\<open>get_ksi_color\<close> returns a colour for every integer, and every integer outside
  1..7 is red: 8 and more, and also 0 and the negative counts.
\<close>

theorem get_ksi_color_outside_is_red:
  "get_ksi_color k \<in> {''yellow'', ''orange'', ''red''}
   \<and> (k < 1 \<or> 7 < k \<longrightarrow> get_ksi_color k = ''red'')"
  by (simp add: get_ksi_color_def)

theorem get_ksi_color_outside_is_red_witness:
  "get_ksi_color 0 = ''red'' \<and> get_ksi_color (- 3) = ''red'' \<and> get_ksi_color 12 = ''red''"
  using get_ksi_color_outside_is_red [of 0] get_ksi_color_outside_is_red [of "- 3"]
    get_ksi_color_outside_is_red [of 12]
  by simp

section \<open>The whole run\<close>

lemma detect_mixed:
  "detect_crs sample_lib \<lparr>crs = None, records = [sample_segment 3, sample_segment 0]\<rparr>
     = Done \<lparr>crs = Some EPSG4326, records = [sample_segment 3, sample_segment 0]\<rparr>"
  by (simp add: detect_crs_def sample_segment_def sample_line_def bounds_def minx_def maxx_def
      miny_def maxy_def gt_def lt_def set_crs_def)

lemma filtered_mixed:
  "filtered_segments sample_lib sample_sidebar [sample_segment 3, sample_segment 0]
     = [sample_segment 3]"
  by (simp add: filtered_segments_def spatial_filter_def region_filter_eq nonzero_filter_eq
      attribute_filter_eq ksi_filter_eq in_enabled_bucket_def selected_roads_def selected_speed_def
      sample_sidebar_def smooth_all_def smooth_geometry_def smooth_try_def
      sample_lib_def sample_segment_def sample_intersects_def essex_bbox_def box_def bounds_def
      sample_line_def bbox_west_def bbox_east_def bbox_north_def bbox_south_def)

lemma run_mixed:
  "run sample_lib sample_sidebar (Some sample_table_mixed)
     = Done (Map_of [(sample_segment 3, ''yellow'')])"
  by (simp add: run_def load_data_frame_def load_mixed detect_mixed filtered_mixed render_def
      get_ksi_color_def)
     (simp add: sample_segment_def)

lemma smooth_all_counts: "map ksi_count (smooth_all L rs) = map ksi_count rs"
  by (simp add: smooth_all_def comp_def)

lemma ksi_filter_subset: "set (ksi_filter f14 f57 f8 rs) \<subseteq> set rs"
  by (auto simp: ksi_filter_eq)

lemma filtered_segments_nonzero:
  assumes "r \<in> set (filtered_segments L ui rs0)"
  shows "ksi_count r \<noteq> 0"
proof -
  let ?gdf = "spatial_filter L rs0"
  let ?a = "attribute_filter (selected_roads ui ?gdf) (selected_speed ui ?gdf) ?gdf"
  let ?k = "ksi_filter (filter_1_4 ui) (filter_5_7 ui) (filter_8 ui) ?a"
  from assms have "r \<in> set (smooth_all L ?k)"
    by (simp add: filtered_segments_def Let_def)
  then have "ksi_count r \<in> set (map ksi_count (smooth_all L ?k))"
    unfolding set_map by (rule imageI)
  then have "ksi_count r \<in> ksi_count ` set ?k"
    unfolding smooth_all_counts by simp
  then obtain r' where r': "r' \<in> set ?k" "ksi_count r' = ksi_count r" by auto
  from r'(1) ksi_filter_subset have "r' \<in> set ?a" by blast
  then have "r' \<in> set ?gdf" by (simp add: attribute_filter_eq)
  then have "ksi_count r' \<noteq> 0"
    by (simp add: spatial_filter_def nonzero_filter_eq)
  with r'(2) show ?thesis by simp
qed

lemma run_Done:
  assumes "run L ui uploaded_file = Done (Map_of fs)"
  shows "\<exists>rs0. fs = map (\<lambda>r. (r, get_ksi_color (ksi_count r))) (filtered_segments L ui rs0)"
  using assms
  by (auto simp: run_def render_def split: option.splits outcome.splits if_splits)

text \<open>
  C6. A count of 4 is yellow and in the bucket 1 to 4, a count of 5 is orange and in the
  bucket 5 to 7, a count of 8 is red and in the bucket 8 and more; and every segment that
  a run draws has the colour of its count, which is never 0.
\<close>

theorem severity_colours:
  "get_ksi_color 4 = ''yellow'' \<and> get_ksi_color 5 = ''orange'' \<and> get_ksi_color 8 = ''red''
   \<and> (ksi_count r = 4 \<longrightarrow> ksi_conditions True True True [r] = [[True], [False], [False]])
   \<and> (ksi_count r = 5 \<longrightarrow> ksi_conditions True True True [r] = [[False], [True], [False]])
   \<and> (ksi_count r = 8 \<longrightarrow> ksi_conditions True True True [r] = [[False], [False], [True]])
   \<and> (run L ui uploaded_file = Done (Map_of fs)
        \<longrightarrow> (\<forall>(s, c) \<in> set fs. ksi_count s \<noteq> 0 \<and> c = get_ksi_color (ksi_count s)))"
proof -
  have "\<forall>(s, c) \<in> set fs. ksi_count s \<noteq> 0 \<and> c = get_ksi_color (ksi_count s)"
    if "run L ui uploaded_file = Done (Map_of fs)"
    using run_Done[OF that] filtered_segments_nonzero[of _ L ui] by fastforce
  then show ?thesis
    by (simp add: get_ksi_color_def ksi_conditions_def)
qed

theorem severity_colours_witness:
  "run sample_lib sample_sidebar (Some sample_table_mixed)
     = Done (Map_of [(sample_segment 3, ''yellow'')])
   \<and> ksi_count (sample_segment 3) \<noteq> 0
   \<and> ksi_conditions True True True [sample_segment 4] = [[True], [False], [False]]
   \<and> ksi_conditions True True True [sample_segment 5] = [[False], [True], [False]]
   \<and> ksi_conditions True True True [sample_segment 8] = [[False], [False], [True]]"
proof -
  have k: "ksi_count (sample_segment 4) = 4" "ksi_count (sample_segment 5) = 5"
    "ksi_count (sample_segment 8) = 8"
    by (simp_all add: sample_segment_def)
  from severity_colours[of "sample_segment 4" sample_lib sample_sidebar "Some sample_table_mixed"
      "[(sample_segment 3, ''yellow'')]"]
    severity_colours[of "sample_segment 5" sample_lib sample_sidebar None "[]"]
    severity_colours[of "sample_segment 8" sample_lib sample_sidebar None "[]"] k run_mixed
  show ?thesis by simp
qed

end
